theory Spec2Isabelle
  imports Complex_Main
begin

section \<open>Values, expressions and relational expressions\<close>

text \<open>
  Set elements are opaque tokens. A parameter value that is used as a bound is a float that
  is either finite or the \<^verbatim>\<open>infinity = float('inf')\<close> of the diet notebook;
  coefficients are finite. Arithmetic is exact (reals).
\<close>

type_synonym token = string

datatype pyfloat = Fin real | PosInf

fun le_float :: "pyfloat \<Rightarrow> pyfloat \<Rightarrow> bool" where
  "le_float (Fin u) (Fin v) = (u \<le> v)"
| "le_float PosInf (Fin v) = False"
| "le_float u PosInf = True"

text \<open>
  The expression objects a rule builds: \<^verbatim>\<open>model.c[i]*model.x[i]\<close> is a product
  of a parameter value and a variable, \<^verbatim>\<open>sum(...)\<close> starts from 0 and adds the
  terms from left to right.
\<close>

datatype 'v expr =
    NumericConstant real
  | VarData 'v
  | ProductExpression real "'v expr"
  | SumExpression "'v expr" "'v expr"

definition sum_expr :: "'v expr list \<Rightarrow> 'v expr" where
  "sum_expr es = foldl SumExpression (NumericConstant 0) es"

fun eval :: "('v \<Rightarrow> real) \<Rightarrow> 'v expr \<Rightarrow> real" where
  "eval x (NumericConstant r) = r"
| "eval x (VarData v) = x v"
| "eval x (ProductExpression k e) = k * eval x e"
| "eval x (SumExpression l r) = eval x l + eval x r"

fun coeff :: "'v expr \<Rightarrow> 'v \<Rightarrow> real" where
  "coeff (NumericConstant r) v = 0"
| "coeff (VarData u) v = (if u = v then 1 else 0)"
| "coeff (ProductExpression k e) v = k * coeff e v"
| "coeff (SumExpression l r) v = coeff l v + coeff r v"

text \<open>
  What a constraint rule returns: \<^verbatim>\<open>e <= b\<close>, \<^verbatim>\<open>inequality(lo, e, hi)\<close>,
  \<^verbatim>\<open>l == r\<close>, or \<^verbatim>\<open>Constraint.Skip\<close>.
\<close>

datatype 'v relational =
    InequalityExpression "'v expr" pyfloat
  | RangedExpression pyfloat "'v expr" pyfloat
  | EqualityExpression "'v expr" "'v expr"

datatype 'v rule_result = Expr "'v relational" | Skip

fun holds :: "('v \<Rightarrow> real) \<Rightarrow> 'v relational \<Rightarrow> bool" where
  "holds x (InequalityExpression e b) = le_float (Fin (eval x e)) b"
| "holds x (RangedExpression lo e hi) = (le_float lo (Fin (eval x e)) \<and> le_float (Fin (eval x e)) hi)"
| "holds x (EqualityExpression l r) = (eval x l = eval x r)"

text \<open>
  \<^verbatim>\<open>Constraint(index_set, rule=r)\<close>: the rule is called once for each index, in the
  order of the set; an index whose rule returns \<^verbatim>\<open>Constraint.Skip\<close> gets no instance.
\<close>

fun Constraint :: "'k list \<Rightarrow> ('k \<Rightarrow> 'v rule_result) \<Rightarrow> ('k \<times> 'v relational) list" where
  "Constraint [] rule = []"
| "Constraint (k # ks) rule =
     (case rule k of
        Skip \<Rightarrow> Constraint ks rule
      | Expr c \<Rightarrow> (k, c) # Constraint ks rule)"

text \<open>
  A rule is a Python function, and Python itself evaluates a comparison of two plain
  numbers: the rule then returns a native bool and not an expression. The constraint
  component does not accept a bool from a rule: its construction aborts with a
  \<^verbatim>\<open>ValueError\<close> at the first index whose rule returns one. When no call returns a
  bool, the instances are those of \<open>Constraint\<close>.
\<close>

datatype 'v rule_return = Returns "'v rule_result" | PyBool bool

datatype py_exception = ValueError

fun Constraint_rule ::
  "'k list \<Rightarrow> ('k \<Rightarrow> 'v rule_return) \<Rightarrow> py_exception + ('k \<times> 'v relational) list" where
  "Constraint_rule [] rule = Inr []"
| "Constraint_rule (k # ks) rule =
     (case rule k of
        PyBool b \<Rightarrow> Inl ValueError
      | Returns r \<Rightarrow>
          (case Constraint_rule ks rule of
             Inl e \<Rightarrow> Inl e
           | Inr cs \<Rightarrow> Inr (Constraint [k] (\<lambda>_. r) @ cs)))"

section \<open>Objectives, variable domains and the instantiated program\<close>

datatype sense = minimize | maximize

record 'v objective =
  obj_sense :: sense
  obj_expr :: "'v expr"

text \<open>
  Modelled from the spec: the sense of an objective that is declared without one. The
  notebooks write \<^verbatim>\<open>Objective(rule=r)\<close> and \<^verbatim>\<open>Objective(rule=r, sense=maximize)\<close>;
  the sense taken when the keyword is left out is a default of the modelling library and
  is not written in the notebooks. The spec calls the diet problem a cost minimization
  ("minimize cost"), and the solver report shown in the diet notebook prints
  \<^verbatim>\<open>Sense: minimize\<close> for the objective declared without a sense.
\<close>

definition Objective :: "'v expr \<Rightarrow> sense option \<Rightarrow> 'v objective" where
  "Objective e s = \<lparr>obj_sense = (case s of None \<Rightarrow> minimize | Some d \<Rightarrow> d), obj_expr = e\<rparr>"

datatype domain = Any | PositiveReals | NonNegativeReals | NonNegativeIntegers

fun in_domain :: "domain \<Rightarrow> real \<Rightarrow> bool" where
  "in_domain Any r = True"
| "in_domain PositiveReals r = (0 < r)"
| "in_domain NonNegativeReals r = (0 \<le> r)"
| "in_domain NonNegativeIntegers r = (0 \<le> r \<and> of_int \<lfloor>r\<rfloor> = r)"

text \<open>
  What is handed to the solver: the variable instances with their domain, the objective and
  the constraint instances.
\<close>

record 'v lp =
  lp_vars :: "'v list"
  lp_domain :: domain
  lp_objective :: "'v objective"
  lp_constraints :: "'v relational list"

definition feasible :: "'v lp \<Rightarrow> ('v \<Rightarrow> real) \<Rightarrow> bool" where
  "feasible p x \<longleftrightarrow>
     list_all (\<lambda>v. in_domain (lp_domain p) (x v)) (lp_vars p)
     \<and> list_all (holds x) (lp_constraints p)"

definition objective_value :: "'v lp \<Rightarrow> ('v \<Rightarrow> real) \<Rightarrow> real" where
  "objective_value p x = eval x (obj_expr (lp_objective p))"

definition no_worse :: "sense \<Rightarrow> real \<Rightarrow> real \<Rightarrow> bool" where
  "no_worse d u v = (case d of minimize \<Rightarrow> u \<le> v | maximize \<Rightarrow> v \<le> u)"

definition optimal :: "'v lp \<Rightarrow> ('v \<Rightarrow> real) \<Rightarrow> bool" where
  "optimal p x \<longleftrightarrow>
     feasible p x
     \<and> (\<forall>y. feasible p y \<longrightarrow>
           no_worse (obj_sense (lp_objective p)) (objective_value p x) (objective_value p y))"

section \<open>The max-flow model\<close>

text \<open>
  The sets and parameters of \<^verbatim>\<open>maxflow.py\<close> after data has been attached:
  \<^verbatim>\<open>model.N\<close>, \<^verbatim>\<open>model.A\<close>, \<^verbatim>\<open>model.s\<close>, \<^verbatim>\<open>model.t\<close>, \<^verbatim>\<open>model.c\<close>.
\<close>

record maxflow_model =
  mf_N :: "token list"
  mf_A :: "(token \<times> token) list"
  mf_s :: token
  mf_t :: token
  mf_c :: "token \<times> token \<Rightarrow> real"

definition total_rule :: "maxflow_model \<Rightarrow> (token \<times> token) expr" where
  "total_rule m = sum_expr (map VarData (filter (\<lambda>(i, j). j = mf_t m) (mf_A m)))"

definition limit_rule :: "maxflow_model \<Rightarrow> token \<times> token \<Rightarrow> (token \<times> token) rule_result" where
  "limit_rule m = (\<lambda>(i, j). Expr (InequalityExpression (VarData (i, j)) (Fin (mf_c m (i, j)))))"

definition inFlow :: "maxflow_model \<Rightarrow> token \<Rightarrow> (token \<times> token) expr" where
  "inFlow m k = sum_expr (map VarData (filter (\<lambda>(i, j). j = k) (mf_A m)))"

definition outFlow :: "maxflow_model \<Rightarrow> token \<Rightarrow> (token \<times> token) expr" where
  "outFlow m k = sum_expr (map VarData (filter (\<lambda>(i, j). i = k) (mf_A m)))"

text \<open>
  \<^verbatim>\<open>flow_rule\<close>. The sum over no arcs is the Python integer 0. For a node with no arc
  in and no arc out, \<^verbatim>\<open>inFlow == outFlow\<close> therefore compares 0 with 0 and the rule
  returns \<^verbatim>\<open>True\<close>; as soon as one side holds a flow variable, the comparison builds
  an equality expression.
\<close>

definition flow_rule :: "maxflow_model \<Rightarrow> token \<Rightarrow> (token \<times> token) rule_return" where
  "flow_rule m k =
     (if k = mf_s m \<or> k = mf_t m then Returns Skip
      else if filter (\<lambda>(i, j). j = k) (mf_A m) = [] \<and> filter (\<lambda>(i, j). i = k) (mf_A m) = []
        then PyBool ((0::int) = 0)
      else Returns (Expr (EqualityExpression (inFlow m k) (outFlow m k))))"

text \<open>
  \<^verbatim>\<open>model.f = Var(model.A, within=NonNegativeReals)\<close>,
  \<^verbatim>\<open>model.total = Objective(rule=total_rule, sense=maximize)\<close>,
  \<^verbatim>\<open>model.limit = Constraint(model.A, rule=limit_rule)\<close> and
  \<^verbatim>\<open>model.flow = Constraint(model.N, rule=flow_rule)\<close>. The construction of the flow
  component can abort, and then there is no program.
\<close>

definition maxflow_lp :: "maxflow_model \<Rightarrow> py_exception + (token \<times> token) lp" where
  "maxflow_lp m =
     (case Constraint_rule (mf_N m) (flow_rule m) of
        Inl e \<Rightarrow> Inl e
      | Inr flow \<Rightarrow>
          Inr \<lparr>lp_vars = mf_A m,
               lp_domain = NonNegativeReals,
               lp_objective = Objective (total_rule m) (Some maximize),
               lp_constraints = map snd (Constraint (mf_A m) (limit_rule m)) @ map snd flow\<rparr>)"

text \<open>The objective of the notebook's mathematical formulation, which weights each flow
  into the sink by the capacity of its arc.\<close>

definition markdown_total :: "maxflow_model \<Rightarrow> (token \<times> token) expr" where
  "markdown_total m =
     sum_expr (map (\<lambda>(i, j). ProductExpression (mf_c m (i, j)) (VarData (i, j)))
                   (filter (\<lambda>(i, j). j = mf_t m) (mf_A m)))"

text \<open>The scenario of the spec: nodes s, a, t and arcs (s,a) of capacity 10 and (a,t) of
  capacity 4.\<close>

definition maxflow_scenario :: maxflow_model where
  "maxflow_scenario =
     \<lparr>mf_N = [''s'', ''a'', ''t''],
      mf_A = [(''s'', ''a''), (''a'', ''t'')],
      mf_s = ''s'',
      mf_t = ''t'',
      mf_c = (\<lambda>_. 0)((''s'', ''a'') := 10, (''a'', ''t'') := 4)\<rparr>"

text \<open>The same network with one more node, b, that no arc touches. The data file lists
  the nodes and the arcs as two separate sets, so it can describe this network.\<close>

definition maxflow_isolated :: maxflow_model where
  "maxflow_isolated = maxflow_scenario\<lparr>mf_N := [''s'', ''a'', ''b'', ''t'']\<rparr>"

text \<open>The data of \<^verbatim>\<open>maxflow.dat\<close> and the flow of the solver report.\<close>

definition maxflow_dat :: maxflow_model where
  "maxflow_dat =
     \<lparr>mf_N = [''Zoo'', ''A'', ''B'', ''C'', ''D'', ''E'', ''Home''],
      mf_A = [(''Zoo'', ''A''), (''Zoo'', ''B''), (''A'', ''C''), (''A'', ''D''), (''B'', ''A''),
              (''B'', ''C''), (''C'', ''D''), (''C'', ''E''), (''D'', ''E''), (''D'', ''Home''),
              (''E'', ''Home'')],
      mf_s = ''Zoo'',
      mf_t = ''Home'',
      mf_c = (\<lambda>_. 0)
        ((''Zoo'', ''A'') := 11, (''Zoo'', ''B'') := 8, (''A'', ''C'') := 5, (''A'', ''D'') := 8,
         (''B'', ''A'') := 4, (''B'', ''C'') := 3, (''C'', ''D'') := 2, (''C'', ''E'') := 4,
         (''D'', ''E'') := 5, (''D'', ''Home'') := 8, (''E'', ''Home'') := 6)\<rparr>"

definition maxflow_results :: "token \<times> token \<Rightarrow> real" where
  "maxflow_results = (\<lambda>_. 0)
     ((''C'', ''E'') := 4, (''C'', ''D'') := 2, (''Zoo'', ''A'') := 7, (''A'', ''C'') := 3,
      (''E'', ''Home'') := 6, (''B'', ''A'') := 4, (''D'', ''Home'') := 8, (''D'', ''E'') := 2,
      (''B'', ''C'') := 3, (''Zoo'', ''B'') := 7, (''A'', ''D'') := 8)"

section \<open>The diet model\<close>

text \<open>
  The sets and parameters of \<^verbatim>\<open>diet.py\<close> after data has been attached:
  \<^verbatim>\<open>model.F\<close>, \<^verbatim>\<open>model.N\<close>, \<^verbatim>\<open>model.c\<close>, \<^verbatim>\<open>model.a\<close>, \<^verbatim>\<open>model.Nmin\<close>,
  \<^verbatim>\<open>model.Nmax\<close>, \<^verbatim>\<open>model.V\<close> and \<^verbatim>\<open>model.Vmax\<close>. The nutrient bounds may be
  infinite (\<^verbatim>\<open>default=infinity\<close>).
\<close>

record diet_model =
  diet_F :: "token list"
  diet_N :: "token list"
  diet_c :: "token \<Rightarrow> real"
  diet_a :: "token \<times> token \<Rightarrow> real"
  diet_Nmin :: "token \<Rightarrow> pyfloat"
  diet_Nmax :: "token \<Rightarrow> pyfloat"
  diet_V :: "token \<Rightarrow> real"
  diet_Vmax :: real

definition cost_rule :: "diet_model \<Rightarrow> token expr" where
  "cost_rule m = sum_expr (map (\<lambda>i. ProductExpression (diet_c m i) (VarData i)) (diet_F m))"

definition nutrient_rule :: "diet_model \<Rightarrow> token \<Rightarrow> token rule_result" where
  "nutrient_rule m j =
     (let value = sum_expr (map (\<lambda>i. ProductExpression (diet_a m (i, j)) (VarData i)) (diet_F m))
      in Expr (RangedExpression (diet_Nmin m j) value (diet_Nmax m j)))"

definition volume_rule :: "diet_model \<Rightarrow> token rule_result" where
  "volume_rule m =
     Expr (InequalityExpression
             (sum_expr (map (\<lambda>i. ProductExpression (diet_V m i) (VarData i)) (diet_F m)))
             (Fin (diet_Vmax m)))"

text \<open>
  \<^verbatim>\<open>model.nutrient_limit = Constraint(model.N, rule=nutrient_rule)\<close> and the scalar
  \<^verbatim>\<open>model.volume = Constraint(rule=volume_rule)\<close>.
\<close>

definition nutrient_limit :: "diet_model \<Rightarrow> token relational list" where
  "nutrient_limit m = map snd (Constraint (diet_N m) (nutrient_rule m))"

definition volume :: "diet_model \<Rightarrow> token relational list" where
  "volume m = map snd (Constraint [()] (\<lambda>_. volume_rule m))"

text \<open>
  \<^verbatim>\<open>model.x = Var(model.F, within=NonNegativeIntegers)\<close> and
  \<^verbatim>\<open>model.cost = Objective(rule=cost_rule)\<close>, with no sense given.
\<close>

definition diet_lp :: "diet_model \<Rightarrow> token lp" where
  "diet_lp m =
     \<lparr>lp_vars = diet_F m,
      lp_domain = NonNegativeIntegers,
      lp_objective = Objective (cost_rule m) None,
      lp_constraints = nutrient_limit m @ volume m\<rparr>"

text \<open>The same program with the nutrient constraints only: the diet scenario of the spec
  names no volumes.\<close>

definition diet_nutrient_lp :: "diet_model \<Rightarrow> token lp" where
  "diet_nutrient_lp m = (diet_lp m)\<lparr>lp_constraints := nutrient_limit m\<rparr>"

text \<open>The scenario of the spec: foods A and B of cost 1 and 2 with 500 calories each, at
  least 1000 calories and no upper bound. The volumes are left open.\<close>

definition diet_scenario :: "(token \<Rightarrow> real) \<Rightarrow> real \<Rightarrow> diet_model" where
  "diet_scenario vol vmax =
     \<lparr>diet_F = [''A'', ''B''],
      diet_N = [''Cal''],
      diet_c = (\<lambda>_. 0)(''A'' := 1.0, ''B'' := 2.0),
      diet_a = (\<lambda>_. 0)((''A'', ''Cal'') := 500, (''B'', ''Cal'') := 500),
      diet_Nmin = (\<lambda>_. Fin 0.0)(''Cal'' := Fin 1000),
      diet_Nmax = (\<lambda>_. PosInf),
      diet_V = vol,
      diet_Vmax = vmax\<rparr>"

text \<open>
  The data of \<^verbatim>\<open>diet.dat\<close>. A parameter block is a table: one row for each index, one
  column for each heading. The block \<^verbatim>\<open>param: F: c V :=\<close> also lists the foods and
  the block \<^verbatim>\<open>param: N: Nmin Nmax :=\<close> the nutrients; a period there leaves the
  upper bound at its declared default.
\<close>

definition param_table :: "token list \<Rightarrow> (token \<times> real list) list \<Rightarrow> token \<times> token \<Rightarrow> real" where
  "param_table cols rows =
     (\<lambda>(i, j). case map_of rows i of
                 None \<Rightarrow> 0
               | Some r \<Rightarrow> (case map_of (zip cols r) j of None \<Rightarrow> 0 | Some v \<Rightarrow> v))"

definition diet_dat_F :: "(token \<times> real list) list" where
  "diet_dat_F =
     [(''Cheeseburger'',     [1.84,  4.0]),
      (''Ham Sandwich'',     [2.19,  7.5]),
      (''Hamburger'',        [1.84,  3.5]),
      (''Fish Sandwich'',    [1.44,  5.0]),
      (''Chicken Sandwich'', [2.29,  7.3]),
      (''Fries'',            [0.77,  2.6]),
      (''Sausage Biscuit'',  [1.29,  4.1]),
      (''Lowfat Milk'',      [0.60,  8.0]),
      (''Orange Juice'',     [0.72, 12.0])]"

definition diet_dat_a :: "(token \<times> real list) list" where
  "diet_dat_a =
     [(''Cheeseburger'',     [510, 34, 28, 15,   6, 30, 20]),
      (''Ham Sandwich'',     [370, 35, 24, 15,  10, 20, 20]),
      (''Hamburger'',        [500, 42, 25,  6,   2, 25, 20]),
      (''Fish Sandwich'',    [370, 38, 14,  2,   0, 15, 10]),
      (''Chicken Sandwich'', [400, 42, 31,  8,  15, 15,  8]),
      (''Fries'',            [220, 26,  3,  0,  15,  0,  2]),
      (''Sausage Biscuit'',  [345, 27, 15,  4,   0, 20, 15]),
      (''Lowfat Milk'',      [110, 12,  9, 10,   4, 30,  0]),
      (''Orange Juice'',     [ 80, 20,  1,  2, 120,  2,  2])]"

definition diet_dat :: diet_model where
  "diet_dat =
     \<lparr>diet_F = map fst diet_dat_F,
      diet_N = [''Cal'', ''Carbo'', ''Protein'', ''VitA'', ''VitC'', ''Calc'', ''Iron''],
      diet_c = (\<lambda>i. param_table [''c'', ''V''] diet_dat_F (i, ''c'')),
      diet_a = param_table [''Cal'', ''Carbo'', ''Protein'', ''VitA'', ''VitC'', ''Calc'', ''Iron'']
                 diet_dat_a,
      diet_Nmin = (\<lambda>_. Fin 0.0)
        (''Cal'' := Fin 2000, ''Carbo'' := Fin 350, ''Protein'' := Fin 55, ''VitA'' := Fin 100,
         ''VitC'' := Fin 100, ''Calc'' := Fin 100, ''Iron'' := Fin 100),
      diet_Nmax = (\<lambda>_. PosInf)(''Carbo'' := Fin 375),
      diet_V = (\<lambda>i. param_table [''c'', ''V''] diet_dat_F (i, ''V'')),
      diet_Vmax = 75.0\<rparr>"

text \<open>The variable values of the solver report of the diet notebook; a variable that the
  report does not list is 0.\<close>

definition diet_results :: "token \<Rightarrow> real" where
  "diet_results =
     (\<lambda>_. 0)(''Cheeseburger'' := 4, ''Fries'' := 5, ''Fish Sandwich'' := 1, ''Lowfat Milk'' := 4)"

section \<open>Parameter declarations and instantiation errors\<close>

datatype error = MissingDataError | DataValidationError | ModelDefinitionError

fun float_in_domain :: "domain \<Rightarrow> pyfloat \<Rightarrow> bool" where
  "float_in_domain d (Fin r) = in_domain d r"
| "float_in_domain d PosInf = (d \<noteq> NonNegativeIntegers)"

text \<open>
  A \<^verbatim>\<open>Param(..., within=D, default=v)\<close> declaration: the membership test of its
  domain and its optional default. The six declarations of \<^verbatim>\<open>diet.py\<close> and the three
  of \<^verbatim>\<open>maxflow.py\<close> follow; the source and the sink are tokens of the node set, and
  the capacities have no declared domain.
\<close>

record 'v param_decl =
  param_within :: "'v \<Rightarrow> bool"
  param_default :: "'v option"

definition diet_c_decl :: "pyfloat param_decl" where
  "diet_c_decl = \<lparr>param_within = float_in_domain PositiveReals, param_default = None\<rparr>"

definition diet_a_decl :: "pyfloat param_decl" where
  "diet_a_decl = \<lparr>param_within = float_in_domain NonNegativeReals, param_default = None\<rparr>"

definition diet_Nmin_decl :: "pyfloat param_decl" where
  "diet_Nmin_decl =
     \<lparr>param_within = float_in_domain NonNegativeReals, param_default = Some (Fin 0.0)\<rparr>"

definition diet_Nmax_decl :: "pyfloat param_decl" where
  "diet_Nmax_decl =
     \<lparr>param_within = float_in_domain NonNegativeReals, param_default = Some PosInf\<rparr>"

definition diet_V_decl :: "pyfloat param_decl" where
  "diet_V_decl = \<lparr>param_within = float_in_domain PositiveReals, param_default = None\<rparr>"

definition diet_Vmax_decl :: "pyfloat param_decl" where
  "diet_Vmax_decl = \<lparr>param_within = float_in_domain PositiveReals, param_default = None\<rparr>"

definition mf_s_decl :: "token list \<Rightarrow> token param_decl" where
  "mf_s_decl nodes = \<lparr>param_within = (\<lambda>v. v \<in> set nodes), param_default = None\<rparr>"

definition mf_t_decl :: "token list \<Rightarrow> token param_decl" where
  "mf_t_decl nodes = \<lparr>param_within = (\<lambda>v. v \<in> set nodes), param_default = None\<rparr>"

definition mf_c_decl :: "pyfloat param_decl" where
  "mf_c_decl = \<lparr>param_within = float_in_domain Any, param_default = None\<rparr>"

text \<open>
  Modelled from the spec: the loading of one parameter value, which the notebooks leave to
  the modelling library. The data file provides a value for an index or not (a period in
  a table provides none). A provided value must lie in the declared domain, otherwise
  loading fails with a data validation error; with no provided value the declared default
  is the value; with neither, loading fails with a missing-data error.
\<close>

definition load_param :: "'v param_decl \<Rightarrow> ('k \<rightharpoonup> 'v) \<Rightarrow> 'k \<Rightarrow> error + 'v" where
  "load_param d provided k =
     (case provided k of
        Some v \<Rightarrow> if param_within d v then Inr v else Inl DataValidationError
      | None \<Rightarrow> (case param_default d of
                   Some v \<Rightarrow> Inr v
                 | None \<Rightarrow> Inl MissingDataError))"

text \<open>The bounds that the block \<^verbatim>\<open>param: N: Nmin Nmax :=\<close> of \<^verbatim>\<open>diet.dat\<close> provides.\<close>

definition diet_dat_Nmin :: "token \<rightharpoonup> pyfloat" where
  "diet_dat_Nmin =
     [''Cal'' \<mapsto> Fin 2000, ''Carbo'' \<mapsto> Fin 350, ''Protein'' \<mapsto> Fin 55, ''VitA'' \<mapsto> Fin 100,
      ''VitC'' \<mapsto> Fin 100, ''Calc'' \<mapsto> Fin 100, ''Iron'' \<mapsto> Fin 100]"

definition diet_dat_Nmax :: "token \<rightharpoonup> pyfloat" where
  "diet_dat_Nmax = [''Carbo'' \<mapsto> Fin 375]"

text \<open>
  Modelled from the spec: what makes a constraint instance malformed, which the notebooks
  leave to the modelling library. A double-bounded instance is malformed when its lower
  bound exceeds its upper bound.
\<close>

fun well_bounded :: "'v relational \<Rightarrow> bool" where
  "well_bounded (RangedExpression lo e hi) = le_float lo hi"
| "well_bounded (InequalityExpression e b) = True"
| "well_bounded (EqualityExpression l r) = True"

text \<open>
  Modelled from the spec: the check of the constraint instances at instantiation, which
  the notebooks leave to the modelling library. A malformed instance is a model
  definition error and aborts instantiation; otherwise the program is produced as it is.
\<close>

definition instantiate :: "'v lp \<Rightarrow> error + 'v lp" where
  "instantiate p =
     (if list_all well_bounded (lp_constraints p) then Inr p else Inl ModelDefinitionError)"

section \<open>Properties of expressions\<close>

lemma eval_foldl_SumExpression:
  "eval x (foldl SumExpression e es) = eval x e + sum_list (map (eval x) es)"
  by (induction es arbitrary: e) simp_all

lemma eval_sum_expr: "eval x (sum_expr es) = sum_list (map (eval x) es)"
  by (simp add: sum_expr_def eval_foldl_SumExpression)

lemma Constraint_index_iff:
  "k \<in> fst ` set (Constraint ks rule) \<longleftrightarrow> k \<in> set ks \<and> rule k \<noteq> Skip"
proof (induction ks)
  case Nil
  show ?case by simp
next
  case (Cons a ks)
  show ?case
  proof (cases "rule a")
    case (Expr c)
    with Cons show ?thesis by auto
  next
    case Skip
    with Cons show ?thesis by auto
  qed
qed

section \<open>What the flow rule returns\<close>

lemma Constraint_rule_Returns:
  "Constraint_rule ks (\<lambda>k. Returns (r k)) = Inr (Constraint ks r)"
  by (induction ks) (simp_all split: rule_result.splits)

lemma Constraint_rule_PyBool:
  "k \<in> set ks \<Longrightarrow> rule k = PyBool b \<Longrightarrow> Constraint_rule ks rule = Inl ValueError"
proof (induction ks)
  case Nil
  then show ?case by simp
next
  case (Cons a ks)
  show ?case
  proof (cases "a = k")
    case True
    with Cons.prems show ?thesis by simp
  next
    case False
    with Cons have "Constraint_rule ks rule = Inl ValueError" by simp
    then show ?thesis by (simp split: rule_return.splits)
  qed
qed

lemma flow_rule_Skip_iff: "flow_rule m k = Returns Skip \<longleftrightarrow> k = mf_s m \<or> k = mf_t m"
  by (simp add: flow_rule_def)

lemma flow_rule_incident:
  assumes "k \<noteq> mf_s m" and "k \<noteq> mf_t m"
    and "filter (\<lambda>(i, j). j = k) (mf_A m) \<noteq> [] \<or> filter (\<lambda>(i, j). i = k) (mf_A m) \<noteq> []"
  shows "flow_rule m k = Returns (Expr (EqualityExpression (inFlow m k) (outFlow m k)))"
  using assms by (auto simp add: flow_rule_def)

lemma holds_flow_balance:
  "holds x (EqualityExpression (inFlow m k) (outFlow m k)) \<longleftrightarrow>
     (\<Sum>a\<leftarrow>filter (\<lambda>(i, j). j = k) (mf_A m). x a) = (\<Sum>a\<leftarrow>filter (\<lambda>(i, j). i = k) (mf_A m). x a)"
  by (simp add: inFlow_def outFlow_def eval_sum_expr comp_def)

text \<open>
  C4: \<open>flow_rule\<close> returns the skip sentinel exactly at the source and the sink
  (\<open>flow_rule_Skip_iff\<close>), and the equality of in-flow and out-flow at any other node
  that an arc touches (\<open>flow_rule_incident\<close>). At a node other than the source and the
  sink that no arc touches it does not return the equality: in the network with the nodes
  s, a, b, t and the arcs (s,a) and (a,t), the rule returns the Python bool \<open>True\<close> at b,
  the construction of the flow component aborts, and no program is built.
\<close>

theorem flow_rule_isolated_node:
  "''b'' \<in> set (mf_N maxflow_isolated)
   \<and> ''b'' \<noteq> mf_s maxflow_isolated
   \<and> ''b'' \<noteq> mf_t maxflow_isolated
   \<and> flow_rule maxflow_isolated ''b'' = PyBool True
   \<and> flow_rule maxflow_isolated ''b''
       \<noteq> Returns (Expr (EqualityExpression (inFlow maxflow_isolated ''b'')
                                           (outFlow maxflow_isolated ''b'')))
   \<and> Constraint_rule (mf_N maxflow_isolated) (flow_rule maxflow_isolated) = Inl ValueError
   \<and> maxflow_lp maxflow_isolated = Inl ValueError"
proof -
  have b: "flow_rule maxflow_isolated ''b'' = PyBool True"
    by (simp add: flow_rule_def maxflow_isolated_def maxflow_scenario_def)
  have n: "''b'' \<in> set (mf_N maxflow_isolated)"
    by (simp add: maxflow_isolated_def)
  have abort: "Constraint_rule (mf_N maxflow_isolated) (flow_rule maxflow_isolated) = Inl ValueError"
    using n b by (rule Constraint_rule_PyBool)
  have "maxflow_lp maxflow_isolated = Inl ValueError"
    by (simp add: maxflow_lp_def abort)
  with b n abort show ?thesis
    by (simp add: maxflow_isolated_def maxflow_scenario_def)
qed

theorem flow_rule_isolated_node_witness:
  "(\<forall>p. maxflow_lp maxflow_isolated \<noteq> Inr p)
   \<and> (\<forall>c. flow_rule maxflow_isolated ''b'' \<noteq> Returns (Expr c))
   \<and> flow_rule maxflow_isolated ''b'' \<noteq> Returns Skip"
  using flow_rule_isolated_node by simp

section \<open>The max-flow scenario\<close>

lemma flow_rule_scenario:
  "flow_rule maxflow_scenario ''s'' = Returns Skip"
  "flow_rule maxflow_scenario ''a'' =
     Returns (Expr (EqualityExpression (inFlow maxflow_scenario ''a'') (outFlow maxflow_scenario ''a'')))"
  "flow_rule maxflow_scenario ''t'' = Returns Skip"
  by (simp_all add: flow_rule_def maxflow_scenario_def)

lemma flow_instances_scenario:
  "Constraint_rule (mf_N maxflow_scenario) (flow_rule maxflow_scenario) =
     Inr [(''a'', EqualityExpression (inFlow maxflow_scenario ''a'') (outFlow maxflow_scenario ''a''))]"
proof -
  have "mf_N maxflow_scenario = [''s'', ''a'', ''t'']"
    by (simp add: maxflow_scenario_def)
  then show ?thesis
    by (simp add: flow_rule_scenario)
qed

lemma maxflow_lp_scenario:
  "maxflow_lp maxflow_scenario =
     Inr \<lparr>lp_vars = [(''s'', ''a''), (''a'', ''t'')],
          lp_domain = NonNegativeReals,
          lp_objective = Objective (total_rule maxflow_scenario) (Some maximize),
          lp_constraints =
            [InequalityExpression (VarData (''s'', ''a'')) (Fin 10),
             InequalityExpression (VarData (''a'', ''t'')) (Fin 4),
             EqualityExpression (inFlow maxflow_scenario ''a'') (outFlow maxflow_scenario ''a'')]\<rparr>"
  unfolding maxflow_lp_def flow_instances_scenario
  by (simp add: limit_rule_def maxflow_scenario_def)

lemma holds_flow_balance_scenario:
  "holds x (EqualityExpression (inFlow maxflow_scenario ''a'') (outFlow maxflow_scenario ''a''))
     \<longleftrightarrow> x (''s'', ''a'') = x (''a'', ''t'')"
  unfolding holds_flow_balance by (simp add: maxflow_scenario_def)

lemma feasible_maxflow_scenario:
  assumes "maxflow_lp maxflow_scenario = Inr p"
  shows "feasible p x \<longleftrightarrow>
     0 \<le> x (''s'', ''a'') \<and> 0 \<le> x (''a'', ''t'')
     \<and> x (''s'', ''a'') \<le> 10 \<and> x (''a'', ''t'') \<le> 4
     \<and> x (''s'', ''a'') = x (''a'', ''t'')"
  using assms unfolding maxflow_lp_scenario
  by (auto simp add: feasible_def holds_flow_balance_scenario simp del: holds.simps(3))

lemma objective_maxflow_scenario:
  assumes "maxflow_lp maxflow_scenario = Inr p"
  shows "objective_value p x = x (''a'', ''t'')"
  using assms unfolding maxflow_lp_scenario
  by (auto simp add: objective_value_def Objective_def total_rule_def sum_expr_def
      maxflow_scenario_def)

lemma sense_maxflow: "maxflow_lp m = Inr p \<Longrightarrow> obj_sense (lp_objective p) = maximize"
  by (auto simp add: maxflow_lp_def Objective_def split: sum.splits)

lemma optimal_maxflow_scenario:
  assumes p: "maxflow_lp maxflow_scenario = Inr p"
  shows "optimal p x \<longleftrightarrow> x (''s'', ''a'') = 4 \<and> x (''a'', ''t'') = 4"
proof
  assume "optimal p x"
  then have fx: "feasible p x"
    and best: "\<And>y. feasible p y \<Longrightarrow> y (''a'', ''t'') \<le> x (''a'', ''t'')"
    by (simp_all add: optimal_def objective_maxflow_scenario [OF p] sense_maxflow [OF p]
        no_worse_def)
  have "feasible p (\<lambda>_. 4)"
    by (simp add: feasible_maxflow_scenario [OF p])
  from best [OF this] have "4 \<le> x (''a'', ''t'')" .
  moreover from fx have "x (''a'', ''t'') \<le> 4" "x (''s'', ''a'') = x (''a'', ''t'')"
    by (simp_all add: feasible_maxflow_scenario [OF p])
  ultimately show "x (''s'', ''a'') = 4 \<and> x (''a'', ''t'') = 4"
    by simp
next
  assume x: "x (''s'', ''a'') = 4 \<and> x (''a'', ''t'') = 4"
  then have "feasible p x"
    by (simp add: feasible_maxflow_scenario [OF p])
  moreover have "y (''a'', ''t'') \<le> x (''a'', ''t'')" if "feasible p y" for y
    using that x by (simp add: feasible_maxflow_scenario [OF p])
  ultimately show "optimal p x"
    by (simp add: optimal_def objective_maxflow_scenario [OF p] sense_maxflow [OF p]
        no_worse_def)
qed

text \<open>
  C3: in the scenario with nodes s, a, t and arcs (s,a) of capacity 10 and (a,t) of
  capacity 4, the model is constructed, and its constraints are the two capacity limits
  and the flow conservation at a, which holds exactly when the flow on (s,a) equals the
  flow on (a,t). A flow is feasible exactly when it is non-negative, within the two
  capacities and conserved at a; it is optimal exactly when it is 4 on both arcs, and
  then the objective value is 4. \<open>flow_rule\<close> returns the skip sentinel at s and t, and
  the flow component holds the instance of node a and no other.
\<close>

theorem maxflow_scenario_optimum:
  "\<exists>p. maxflow_lp maxflow_scenario = Inr p
     \<and> lp_constraints p =
         [InequalityExpression (VarData (''s'', ''a'')) (Fin 10),
          InequalityExpression (VarData (''a'', ''t'')) (Fin 4),
          EqualityExpression (inFlow maxflow_scenario ''a'') (outFlow maxflow_scenario ''a'')]
     \<and> (\<forall>x. holds x (EqualityExpression (inFlow maxflow_scenario ''a'')
                                         (outFlow maxflow_scenario ''a''))
              \<longleftrightarrow> x (''s'', ''a'') = x (''a'', ''t''))
     \<and> (\<forall>x. feasible p x \<longleftrightarrow>
              0 \<le> x (''s'', ''a'') \<and> 0 \<le> x (''a'', ''t'')
              \<and> x (''s'', ''a'') \<le> 10 \<and> x (''a'', ''t'') \<le> 4
              \<and> x (''s'', ''a'') = x (''a'', ''t''))
     \<and> (\<forall>x. optimal p x \<longleftrightarrow> x (''s'', ''a'') = 4 \<and> x (''a'', ''t'') = 4)
     \<and> (\<forall>x. optimal p x \<longrightarrow> objective_value p x = 4)
     \<and> flow_rule maxflow_scenario ''s'' = Returns Skip
     \<and> flow_rule maxflow_scenario ''t'' = Returns Skip
     \<and> Constraint_rule (mf_N maxflow_scenario) (flow_rule maxflow_scenario) =
         Inr [(''a'', EqualityExpression (inFlow maxflow_scenario ''a'')
                                         (outFlow maxflow_scenario ''a''))]"
proof -
  obtain p where p: "maxflow_lp maxflow_scenario = Inr p"
    using maxflow_lp_scenario by blast
  have cons: "lp_constraints p =
         [InequalityExpression (VarData (''s'', ''a'')) (Fin 10),
          InequalityExpression (VarData (''a'', ''t'')) (Fin 4),
          EqualityExpression (inFlow maxflow_scenario ''a'') (outFlow maxflow_scenario ''a'')]"
    using p unfolding maxflow_lp_scenario by auto
  have val: "objective_value p x = 4" if "optimal p x" for x
    using that by (simp add: optimal_maxflow_scenario [OF p] objective_maxflow_scenario [OF p])
  have s: "flow_rule maxflow_scenario ''s'' = Returns Skip"
    by (rule flow_rule_scenario)
  have t: "flow_rule maxflow_scenario ''t'' = Returns Skip"
    by (rule flow_rule_scenario)
  show ?thesis
  proof (intro exI [of _ p] conjI allI impI)
    show "maxflow_lp maxflow_scenario = Inr p" by (rule p)
    show "lp_constraints p =
         [InequalityExpression (VarData (''s'', ''a'')) (Fin 10),
          InequalityExpression (VarData (''a'', ''t'')) (Fin 4),
          EqualityExpression (inFlow maxflow_scenario ''a'') (outFlow maxflow_scenario ''a'')]"
      by (rule cons)
    show "holds x (EqualityExpression (inFlow maxflow_scenario ''a'')
                                      (outFlow maxflow_scenario ''a''))
           \<longleftrightarrow> x (''s'', ''a'') = x (''a'', ''t'')" for x
      by (rule holds_flow_balance_scenario)
    show "feasible p x \<longleftrightarrow>
              0 \<le> x (''s'', ''a'') \<and> 0 \<le> x (''a'', ''t'')
              \<and> x (''s'', ''a'') \<le> 10 \<and> x (''a'', ''t'') \<le> 4
              \<and> x (''s'', ''a'') = x (''a'', ''t'')" for x
      by (rule feasible_maxflow_scenario [OF p])
    show "optimal p x \<longleftrightarrow> x (''s'', ''a'') = 4 \<and> x (''a'', ''t'') = 4" for x
      by (rule optimal_maxflow_scenario [OF p])
    show "objective_value p x = 4" if "optimal p x" for x
      using that by (rule val)
    show "flow_rule maxflow_scenario ''s'' = Returns Skip" by (rule s)
    show "flow_rule maxflow_scenario ''t'' = Returns Skip" by (rule t)
    show "Constraint_rule (mf_N maxflow_scenario) (flow_rule maxflow_scenario) =
         Inr [(''a'', EqualityExpression (inFlow maxflow_scenario ''a'')
                                         (outFlow maxflow_scenario ''a''))]"
      by (rule flow_instances_scenario)
  qed
qed

theorem maxflow_scenario_optimum_witness:
  "\<exists>p. maxflow_lp maxflow_scenario = Inr p
     \<and> optimal p (\<lambda>_. 4)
     \<and> objective_value p (\<lambda>_. 4) = 4
     \<and> feasible p (\<lambda>_. 3)
     \<and> \<not> optimal p (\<lambda>_. 3)
     \<and> \<not> feasible p ((\<lambda>_. 4)((''s'', ''a'') := 9))"
proof -
  from maxflow_scenario_optimum obtain p where p: "maxflow_lp maxflow_scenario = Inr p"
    and feas: "\<And>x. feasible p x \<longleftrightarrow>
              0 \<le> x (''s'', ''a'') \<and> 0 \<le> x (''a'', ''t'')
              \<and> x (''s'', ''a'') \<le> 10 \<and> x (''a'', ''t'') \<le> 4
              \<and> x (''s'', ''a'') = x (''a'', ''t'')"
    and opt: "\<And>x. optimal p x \<longleftrightarrow> x (''s'', ''a'') = 4 \<and> x (''a'', ''t'') = 4"
    and val: "\<And>x. optimal p x \<Longrightarrow> objective_value p x = 4"
    by blast
  have o4: "optimal p (\<lambda>_. 4)" by (simp add: opt)
  have "objective_value p (\<lambda>_. 4) = 4" using o4 by (rule val)
  moreover have "feasible p (\<lambda>_. 3)" by (simp add: feas)
  moreover have "\<not> optimal p (\<lambda>_. 3)" by (simp add: opt)
  moreover have "\<not> feasible p ((\<lambda>_. 4)((''s'', ''a'') := 9))" by (simp add: feas)
  ultimately show ?thesis using p o4 by blast
qed

section \<open>The objective of the max-flow model\<close>

lemma coeff_foldl_SumExpression:
  "coeff (foldl SumExpression e es) v = coeff e v + sum_list (map (\<lambda>e. coeff e v) es)"
  by (induction es arbitrary: e) simp_all

lemma coeff_sum_VarData:
  "coeff (sum_expr (map VarData vs)) v = real (count_list vs v)"
  by (induction vs) (simp_all add: sum_expr_def coeff_foldl_SumExpression)

lemma count_list_distinct:
  "distinct vs \<Longrightarrow> count_list vs v = (if v \<in> set vs then 1 else 0)"
  by (induction vs) auto

lemma limit_instances:
  "set (map snd (Constraint ks (limit_rule m)))
   = (\<lambda>a. InequalityExpression (VarData a) (Fin (mf_c m a))) ` set ks"
  by (induction ks) (auto simp: limit_rule_def)

lemma feasible_maxflow_capacity:
  assumes "maxflow_lp m = Inr p" and "feasible p x" and "a \<in> set (mf_A m)"
  shows "x a \<le> mf_c m a"
proof -
  from assms(3) have "InequalityExpression (VarData a) (Fin (mf_c m a))
      \<in> set (map snd (Constraint (mf_A m) (limit_rule m)))"
    unfolding limit_instances by blast
  moreover from assms(1) have
    "set (map snd (Constraint (mf_A m) (limit_rule m))) \<subseteq> set (lp_constraints p)"
    by (cases "Constraint_rule (mf_N m) (flow_rule m)") (force simp add: maxflow_lp_def)+
  ultimately have "InequalityExpression (VarData a) (Fin (mf_c m a)) \<in> set (lp_constraints p)"
    by auto
  with assms(2) have "holds x (InequalityExpression (VarData a) (Fin (mf_c m a)))"
    unfolding feasible_def list_all_iff by blast
  then show ?thesis by simp
qed

lemma flow_rule_dat:
  "flow_rule maxflow_dat ''Zoo'' = Returns Skip"
  "flow_rule maxflow_dat ''Home'' = Returns Skip"
  "k \<in> set [''A'', ''B'', ''C'', ''D'', ''E''] \<Longrightarrow>
     flow_rule maxflow_dat k =
       Returns (Expr (EqualityExpression (inFlow maxflow_dat k) (outFlow maxflow_dat k)))"
  by (auto simp add: flow_rule_def maxflow_dat_def)

lemma flow_instances_dat:
  "Constraint_rule (mf_N maxflow_dat) (flow_rule maxflow_dat) =
     Inr (map (\<lambda>k. (k, EqualityExpression (inFlow maxflow_dat k) (outFlow maxflow_dat k)))
              [''A'', ''B'', ''C'', ''D'', ''E''])"
proof -
  have "mf_N maxflow_dat = [''Zoo'', ''A'', ''B'', ''C'', ''D'', ''E'', ''Home'']"
    by (simp add: maxflow_dat_def)
  then show ?thesis
    by (simp add: flow_rule_dat)
qed

lemma maxflow_lp_dat:
  "maxflow_lp maxflow_dat =
     Inr \<lparr>lp_vars = mf_A maxflow_dat,
          lp_domain = NonNegativeReals,
          lp_objective = Objective (total_rule maxflow_dat) (Some maximize),
          lp_constraints =
            map snd (Constraint (mf_A maxflow_dat) (limit_rule maxflow_dat))
            @ map (\<lambda>k. EqualityExpression (inFlow maxflow_dat k) (outFlow maxflow_dat k))
                  [''A'', ''B'', ''C'', ''D'', ''E'']\<rparr>"
  unfolding maxflow_lp_def flow_instances_dat by (simp add: comp_def)

lemma objective_maxflow_dat:
  assumes "maxflow_lp maxflow_dat = Inr p"
  shows "objective_value p x = x (''D'', ''Home'') + x (''E'', ''Home'')"
  using assms unfolding maxflow_lp_dat
  by (auto simp add: objective_value_def maxflow_dat_def Objective_def total_rule_def
      sum_expr_def)

lemma feasible_maxflow_results:
  assumes "maxflow_lp maxflow_dat = Inr p"
  shows "feasible p maxflow_results"
proof -
  have "feasible \<lparr>lp_vars = mf_A maxflow_dat,
          lp_domain = NonNegativeReals,
          lp_objective = Objective (total_rule maxflow_dat) (Some maximize),
          lp_constraints =
            map snd (Constraint (mf_A maxflow_dat) (limit_rule maxflow_dat))
            @ map (\<lambda>k. EqualityExpression (inFlow maxflow_dat k) (outFlow maxflow_dat k))
                  [''A'', ''B'', ''C'', ''D'', ''E'']\<rparr> maxflow_results"
    by (simp add: feasible_def maxflow_dat_def limit_rule_def inFlow_def outFlow_def
        sum_expr_def maxflow_results_def)
  with assms show ?thesis
    unfolding maxflow_lp_dat by auto
qed

lemma maxflow_dat_bound:
  assumes p: "maxflow_lp maxflow_dat = Inr p" and fx: "feasible p x"
  shows "objective_value p x \<le> 14"
proof -
  have "x (''D'', ''Home'') \<le> mf_c maxflow_dat (''D'', ''Home'')"
    by (rule feasible_maxflow_capacity [OF p fx]) (simp add: maxflow_dat_def)
  then have d: "x (''D'', ''Home'') \<le> 8"
    by (simp add: maxflow_dat_def)
  have "x (''E'', ''Home'') \<le> mf_c maxflow_dat (''E'', ''Home'')"
    by (rule feasible_maxflow_capacity [OF p fx]) (simp add: maxflow_dat_def)
  then have e: "x (''E'', ''Home'') \<le> 6"
    by (simp add: maxflow_dat_def)
  from d e show ?thesis
    unfolding objective_maxflow_dat [OF p] by linarith
qed

lemma total_rule_eval:
  "eval x (total_rule m) = (\<Sum>a\<leftarrow>filter (\<lambda>(i, j). j = mf_t m) (mf_A m). x a)"
  by (simp add: total_rule_def eval_sum_expr comp_def)

lemma total_rule_coeff:
  assumes "distinct (mf_A m)"
  shows "coeff (total_rule m) (i, j) = (if (i, j) \<in> set (mf_A m) \<and> j = mf_t m then 1 else 0)"
proof -
  from assms have "distinct (filter (\<lambda>(i, j). j = mf_t m) (mf_A m))"
    by simp
  then show ?thesis
    unfolding total_rule_def coeff_sum_VarData by (auto simp add: count_list_distinct)
qed

text \<open>
  C10: in the objective expression built by \<open>total_rule\<close>, the coefficient of the
  flow variable of an arc is 1 when the head of the arc is the sink and 0 otherwise (the
  arcs of a set are distinct), so the objective is the unweighted sum of the flows into
  the sink and not the capacity-weighted sum of the notebook's formula. On the data of
  the notebook the model is constructed, the flow of the solver report is optimal, with
  value 14 = 8 + 6, and every optimal flow has value 14; the capacity-weighted sum of the
  same flow is 100.
\<close>

theorem total_rule_unweighted:
  "(distinct (mf_A m) \<longrightarrow>
      (\<forall>i j. coeff (total_rule m) (i, j) = (if (i, j) \<in> set (mf_A m) \<and> j = mf_t m then 1 else 0)))
   \<and> (\<forall>x. eval x (total_rule m) = (\<Sum>a\<leftarrow>filter (\<lambda>(i, j). j = mf_t m) (mf_A m). x a))
   \<and> coeff (total_rule maxflow_dat) (''D'', ''Home'') = 1
   \<and> coeff (markdown_total maxflow_dat) (''D'', ''Home'') = 8
   \<and> (\<exists>p. maxflow_lp maxflow_dat = Inr p
         \<and> optimal p maxflow_results
         \<and> objective_value p maxflow_results = 8 + 6
         \<and> (\<forall>x. optimal p x \<longrightarrow> objective_value p x = 14))
   \<and> eval maxflow_results (markdown_total maxflow_dat) = 100"
proof (intro conjI impI allI)
  fix i j assume "distinct (mf_A m)"
  then show "coeff (total_rule m) (i, j) = (if (i, j) \<in> set (mf_A m) \<and> j = mf_t m then 1 else 0)"
    by (rule total_rule_coeff)
next
  fix x show "eval x (total_rule m) = (\<Sum>a\<leftarrow>filter (\<lambda>(i, j). j = mf_t m) (mf_A m). x a)"
    by (rule total_rule_eval)
next
  show "coeff (total_rule maxflow_dat) (''D'', ''Home'') = 1"
    by (simp add: total_rule_def maxflow_dat_def sum_expr_def)
  show "coeff (markdown_total maxflow_dat) (''D'', ''Home'') = 8"
    by (simp add: markdown_total_def maxflow_dat_def sum_expr_def)
  show "eval maxflow_results (markdown_total maxflow_dat) = 100"
    by (simp add: markdown_total_def maxflow_dat_def sum_expr_def maxflow_results_def)
  obtain p where p: "maxflow_lp maxflow_dat = Inr p"
    using maxflow_lp_dat by blast
  have val: "objective_value p maxflow_results = 8 + 6"
    by (simp add: objective_maxflow_dat [OF p] maxflow_results_def)
  have opt: "optimal p maxflow_results"
    unfolding optimal_def sense_maxflow [OF p] no_worse_def
    using feasible_maxflow_results [OF p] maxflow_dat_bound [OF p] val by simp
  have all: "objective_value p x = 14" if "optimal p x" for x
  proof -
    from that have fx: "feasible p x"
      and best: "objective_value p maxflow_results \<le> objective_value p x"
      using feasible_maxflow_results [OF p]
      by (simp_all add: optimal_def sense_maxflow [OF p] no_worse_def)
    from maxflow_dat_bound [OF p fx] best val show ?thesis
      by simp
  qed
  from p val opt all
  show "\<exists>p. maxflow_lp maxflow_dat = Inr p
         \<and> optimal p maxflow_results
         \<and> objective_value p maxflow_results = 8 + 6
         \<and> (\<forall>x. optimal p x \<longrightarrow> objective_value p x = 14)"
    by blast
qed

theorem total_rule_unweighted_witness:
  "distinct (mf_A maxflow_dat)
   \<and> coeff (total_rule maxflow_dat) (''E'', ''Home'') = 1
   \<and> coeff (total_rule maxflow_dat) (''Zoo'', ''A'') = 0
   \<and> (\<exists>p. maxflow_lp maxflow_dat = Inr p
         \<and> optimal p maxflow_results
         \<and> objective_value p maxflow_results = 14)"
proof -
  have d: "distinct (mf_A maxflow_dat)"
    by (simp add: maxflow_dat_def)
  have t: "mf_t maxflow_dat = ''Home''" "(''E'', ''Home'') \<in> set (mf_A maxflow_dat)"
    "(''Zoo'', ''A'') \<in> set (mf_A maxflow_dat)"
    by (simp_all add: maxflow_dat_def)
  from total_rule_unweighted [of maxflow_dat] d
  have c: "\<And>i j. coeff (total_rule maxflow_dat) (i, j)
      = (if (i, j) \<in> set (mf_A maxflow_dat) \<and> j = mf_t maxflow_dat then 1 else 0)"
    and e: "\<exists>p. maxflow_lp maxflow_dat = Inr p
         \<and> optimal p maxflow_results
         \<and> objective_value p maxflow_results = 8 + 6
         \<and> (\<forall>x. optimal p x \<longrightarrow> objective_value p x = 14)"
    by blast+
  have "coeff (total_rule maxflow_dat) (''E'', ''Home'') = 1"
    unfolding c using t by simp
  moreover have "coeff (total_rule maxflow_dat) (''Zoo'', ''A'') = 0"
    unfolding c using t by simp
  moreover from e have "\<exists>p. maxflow_lp maxflow_dat = Inr p
         \<and> optimal p maxflow_results
         \<and> objective_value p maxflow_results = 14"
    by auto
  ultimately show ?thesis using d by blast
qed

section \<open>The diet scenario\<close>

lemma sense_diet: "obj_sense (lp_objective (diet_lp m)) = minimize"
  by (simp add: diet_lp_def Objective_def)

lemma objective_diet:
  "objective_value (diet_lp m) x = (\<Sum>i\<leftarrow>diet_F m. diet_c m i * x i)"
  by (simp add: objective_value_def diet_lp_def Objective_def cost_rule_def eval_sum_expr comp_def)

lemma feasible_diet_nutrient_scenario:
  "feasible (diet_nutrient_lp (diet_scenario vol vmax)) x \<longleftrightarrow>
     in_domain NonNegativeIntegers (x ''A'') \<and> in_domain NonNegativeIntegers (x ''B'')
     \<and> 1000 \<le> 500 * x ''A'' + 500 * x ''B''"
  by (simp add: feasible_def diet_nutrient_lp_def diet_lp_def diet_scenario_def
      nutrient_limit_def nutrient_rule_def sum_expr_def del: in_domain.simps)

lemma feasible_diet_scenario:
  "feasible (diet_lp (diet_scenario vol vmax)) x \<longleftrightarrow>
     feasible (diet_nutrient_lp (diet_scenario vol vmax)) x
     \<and> vol ''A'' * x ''A'' + vol ''B'' * x ''B'' \<le> vmax"
  by (simp add: feasible_def diet_nutrient_lp_def diet_lp_def volume_def volume_rule_def
      sum_expr_def) (simp add: diet_scenario_def)

lemma objective_diet_scenario:
  "objective_value (diet_lp (diet_scenario vol vmax)) x = x ''A'' + 2 * x ''B''"
  by (simp add: objective_diet) (simp add: diet_scenario_def)

lemma objective_diet_nutrient: "objective_value (diet_nutrient_lp m) = objective_value (diet_lp m)"
  by (simp add: fun_eq_iff objective_value_def diet_nutrient_lp_def)

lemma sense_diet_nutrient: "obj_sense (lp_objective (diet_nutrient_lp m)) = minimize"
  by (simp add: diet_nutrient_lp_def sense_diet)

lemma diet_nutrient_scenario_optimal_iff:
  "optimal (diet_nutrient_lp (diet_scenario vol vmax)) x \<longleftrightarrow> x ''A'' = 2 \<and> x ''B'' = 0"
proof
  assume "optimal (diet_nutrient_lp (diet_scenario vol vmax)) x"
  then have fx: "feasible (diet_nutrient_lp (diet_scenario vol vmax)) x"
    and best: "\<And>y. feasible (diet_nutrient_lp (diet_scenario vol vmax)) y
        \<Longrightarrow> x ''A'' + 2 * x ''B'' \<le> y ''A'' + 2 * y ''B''"
    by (simp_all add: optimal_def sense_diet_nutrient no_worse_def objective_diet_nutrient
        objective_diet_scenario)
  have "feasible (diet_nutrient_lp (diet_scenario vol vmax)) ((\<lambda>_. 0)(''A'' := 2))"
    by (simp add: feasible_diet_nutrient_scenario)
  from best [OF this] have le: "x ''A'' + 2 * x ''B'' \<le> 2"
    by simp
  from fx have "0 \<le> x ''B''" "1000 \<le> 500 * x ''A'' + 500 * x ''B''"
    by (simp_all add: feasible_diet_nutrient_scenario)
  with le show "x ''A'' = 2 \<and> x ''B'' = 0"
    by linarith
next
  assume x: "x ''A'' = 2 \<and> x ''B'' = 0"
  then have fx: "feasible (diet_nutrient_lp (diet_scenario vol vmax)) x"
    by (simp add: feasible_diet_nutrient_scenario)
  have "x ''A'' + 2 * x ''B'' \<le> y ''A'' + 2 * y ''B''"
    if "feasible (diet_nutrient_lp (diet_scenario vol vmax)) y" for y
  proof -
    from that have "0 \<le> y ''B''" "1000 \<le> 500 * y ''A'' + 500 * y ''B''"
      by (simp_all add: feasible_diet_nutrient_scenario)
    with x show ?thesis by linarith
  qed
  with fx show "optimal (diet_nutrient_lp (diet_scenario vol vmax)) x"
    by (simp add: optimal_def sense_diet_nutrient no_worse_def objective_diet_nutrient
        objective_diet_scenario)
qed

lemma diet_scenario_optimal_iff:
  assumes "2 * vol ''A'' \<le> vmax"
  shows "optimal (diet_lp (diet_scenario vol vmax)) x \<longleftrightarrow> x ''A'' = 2 \<and> x ''B'' = 0"
proof
  assume "optimal (diet_lp (diet_scenario vol vmax)) x"
  then have fx: "feasible (diet_lp (diet_scenario vol vmax)) x"
    and best: "\<And>y. feasible (diet_lp (diet_scenario vol vmax)) y
        \<Longrightarrow> x ''A'' + 2 * x ''B'' \<le> y ''A'' + 2 * y ''B''"
    by (simp_all add: optimal_def sense_diet no_worse_def objective_diet_scenario)
  from assms have "feasible (diet_lp (diet_scenario vol vmax)) ((\<lambda>_. 0)(''A'' := 2))"
    by (simp add: feasible_diet_scenario feasible_diet_nutrient_scenario mult.commute)
  from best [OF this] have le: "x ''A'' + 2 * x ''B'' \<le> 2"
    by simp
  from fx have "0 \<le> x ''B''" "1000 \<le> 500 * x ''A'' + 500 * x ''B''"
    by (simp_all add: feasible_diet_scenario feasible_diet_nutrient_scenario)
  with le show "x ''A'' = 2 \<and> x ''B'' = 0"
    by linarith
next
  assume x: "x ''A'' = 2 \<and> x ''B'' = 0"
  with assms have fx: "feasible (diet_lp (diet_scenario vol vmax)) x"
    by (simp add: feasible_diet_scenario feasible_diet_nutrient_scenario mult.commute)
  have "x ''A'' + 2 * x ''B'' \<le> y ''A'' + 2 * y ''B''"
    if "feasible (diet_lp (diet_scenario vol vmax)) y" for y
  proof -
    from that have "0 \<le> y ''B''" "1000 \<le> 500 * y ''A'' + 500 * y ''B''"
      by (simp_all add: feasible_diet_scenario feasible_diet_nutrient_scenario)
    with x show ?thesis by linarith
  qed
  with fx show "optimal (diet_lp (diet_scenario vol vmax)) x"
    by (simp add: optimal_def sense_diet no_worse_def objective_diet_scenario)
qed

text \<open>
  C2: in the scenario with foods A and B of cost 1.0 and 2.0, 500 calories each, at least
  1000 calories and no upper bound, an assignment is optimal for the program of
  \<open>cost_rule\<close> and \<open>nutrient_rule\<close> over the non-negative integers exactly when it
  takes 2 of A and 0 of B, and its objective value is 2.0. The same holds for the whole
  diet program, with the volume constraint, whenever the volumes admit 2 servings of A.
\<close>

theorem diet_scenario_optimum:
  "(optimal (diet_nutrient_lp (diet_scenario vol vmax)) x \<longleftrightarrow> x ''A'' = 2 \<and> x ''B'' = 0)
   \<and> (optimal (diet_nutrient_lp (diet_scenario vol vmax)) x \<longrightarrow>
         objective_value (diet_nutrient_lp (diet_scenario vol vmax)) x = 2.0)
   \<and> (2 * vol ''A'' \<le> vmax \<longrightarrow>
         (optimal (diet_lp (diet_scenario vol vmax)) x \<longleftrightarrow> x ''A'' = 2 \<and> x ''B'' = 0)
         \<and> (optimal (diet_lp (diet_scenario vol vmax)) x \<longrightarrow>
               objective_value (diet_lp (diet_scenario vol vmax)) x = 2.0))"
  by (simp add: diet_nutrient_scenario_optimal_iff diet_scenario_optimal_iff
      objective_diet_nutrient objective_diet_scenario)

theorem diet_scenario_optimum_witness:
  "optimal (diet_nutrient_lp (diet_scenario (\<lambda>_. 1) 75)) ((\<lambda>_. 0)(''A'' := 2))
   \<and> objective_value (diet_nutrient_lp (diet_scenario (\<lambda>_. 1) 75)) ((\<lambda>_. 0)(''A'' := 2)) = 2
   \<and> optimal (diet_lp (diet_scenario (\<lambda>_. 1) 75)) ((\<lambda>_. 0)(''A'' := 2))
   \<and> \<not> optimal (diet_nutrient_lp (diet_scenario (\<lambda>_. 1) 75)) ((\<lambda>_. 0)(''A'' := 1, ''B'' := 1))"
  using diet_scenario_optimum [of "\<lambda>_. 1" 75 "(\<lambda>_. 0)(''A'' := 2)"]
    diet_scenario_optimum [of "\<lambda>_. 1" 75 "(\<lambda>_. 0)(''A'' := 1, ''B'' := 1)"]
  by simp

section \<open>The sense of the diet objective\<close>

lemma feasible_diet_results: "feasible (diet_lp diet_dat) diet_results"
  by (simp add: feasible_def diet_lp_def nutrient_limit_def nutrient_rule_def volume_def
      volume_rule_def eval_sum_expr comp_def diet_dat_def diet_dat_F_def diet_dat_a_def
      param_table_def diet_results_def)

lemma objective_diet_results: "objective_value (diet_lp diet_dat) diet_results = 15.05"
  by (simp add: objective_diet diet_dat_def diet_dat_F_def param_table_def diet_results_def)

lemma feasible_diet_more_milk:
  "feasible (diet_lp diet_dat) (diet_results(''Lowfat Milk'' := 5))"
  by (simp add: feasible_def diet_lp_def nutrient_limit_def nutrient_rule_def volume_def
      volume_rule_def eval_sum_expr comp_def diet_dat_def diet_dat_F_def diet_dat_a_def
      param_table_def diet_results_def)

lemma objective_diet_more_milk:
  "objective_value (diet_lp diet_dat) (diet_results(''Lowfat Milk'' := 5)) = 15.65"
  by (simp add: objective_diet diet_dat_def diet_dat_F_def param_table_def diet_results_def)


lemma optimal_diet_iff:
  "optimal (diet_lp m) x \<longleftrightarrow>
     feasible (diet_lp m) x
     \<and> (\<forall>y. feasible (diet_lp m) y \<longrightarrow>
           (\<Sum>i\<leftarrow>diet_F m. diet_c m i * x i) \<le> (\<Sum>i\<leftarrow>diet_F m. diet_c m i * y i))"
  by (simp add: optimal_def sense_diet no_worse_def objective_diet)

lemma diet_results_not_maximal:
  "\<not> optimal ((diet_lp diet_dat)\<lparr>lp_objective := Objective (cost_rule diet_dat) (Some maximize)\<rparr>)
       diet_results"
proof
  let ?p = "(diet_lp diet_dat)\<lparr>lp_objective := Objective (cost_rule diet_dat) (Some maximize)\<rparr>"
  have feas: "feasible ?p y = feasible (diet_lp diet_dat) y" for y
    by (simp add: feasible_def)
  have val: "objective_value ?p y = objective_value (diet_lp diet_dat) y" for y
    by (simp add: objective_value_def diet_lp_def Objective_def)
  assume "optimal ?p diet_results"
  then have "\<And>y. feasible ?p y \<Longrightarrow> objective_value ?p y \<le> objective_value ?p diet_results"
    by (simp add: optimal_def Objective_def no_worse_def)
  from this [of "diet_results(''Lowfat Milk'' := 5)"]
  have "objective_value (diet_lp diet_dat) (diet_results(''Lowfat Milk'' := 5))
      \<le> objective_value (diet_lp diet_dat) diet_results"
    unfolding feas val using feasible_diet_more_milk by blast
  then show False
    unfolding objective_diet_more_milk objective_diet_results by simp
qed

text \<open>
  C9: the objective of the diet model, declared by \<open>Objective\<close> with \<open>cost_rule\<close> and
  no sense, has the sense minimize and the value \<open>\<Sum>i. c i * x i\<close>, so an assignment is
  optimal for the diet program exactly when it is feasible and no feasible assignment
  costs less. On the data of the notebook the reported assignment is feasible and costs
  15.05, and it would not be optimal if the sense were maximize.
\<close>

theorem diet_cost_minimized:
  "obj_sense (lp_objective (diet_lp m)) = minimize
   \<and> obj_expr (lp_objective (diet_lp m)) = cost_rule m
   \<and> (\<forall>x. objective_value (diet_lp m) x = (\<Sum>i\<leftarrow>diet_F m. diet_c m i * x i))
   \<and> (\<forall>x. optimal (diet_lp m) x \<longleftrightarrow>
         feasible (diet_lp m) x
         \<and> (\<forall>y. feasible (diet_lp m) y \<longrightarrow>
               (\<Sum>i\<leftarrow>diet_F m. diet_c m i * x i) \<le> (\<Sum>i\<leftarrow>diet_F m. diet_c m i * y i)))
   \<and> feasible (diet_lp diet_dat) diet_results
   \<and> objective_value (diet_lp diet_dat) diet_results = 15.05
   \<and> \<not> optimal ((diet_lp diet_dat)\<lparr>lp_objective := Objective (cost_rule diet_dat) (Some maximize)\<rparr>)
         diet_results"
proof (intro conjI allI)
  show "obj_sense (lp_objective (diet_lp m)) = minimize"
    by (rule sense_diet)
  show "obj_expr (lp_objective (diet_lp m)) = cost_rule m"
    by (simp add: diet_lp_def Objective_def)
  show "objective_value (diet_lp m) x = (\<Sum>i\<leftarrow>diet_F m. diet_c m i * x i)" for x
    by (rule objective_diet)
  show "optimal (diet_lp m) x \<longleftrightarrow>
         feasible (diet_lp m) x
         \<and> (\<forall>y. feasible (diet_lp m) y \<longrightarrow>
               (\<Sum>i\<leftarrow>diet_F m. diet_c m i * x i) \<le> (\<Sum>i\<leftarrow>diet_F m. diet_c m i * y i))" for x
    by (rule optimal_diet_iff)
  show "feasible (diet_lp diet_dat) diet_results"
    by (rule feasible_diet_results)
  show "objective_value (diet_lp diet_dat) diet_results = 15.05"
    by (rule objective_diet_results)
  show "\<not> optimal ((diet_lp diet_dat)\<lparr>lp_objective := Objective (cost_rule diet_dat) (Some maximize)\<rparr>)
         diet_results"
    by (rule diet_results_not_maximal)
qed

theorem diet_cost_minimized_witness:
  "optimal (diet_lp (diet_scenario (\<lambda>_. 1) 75)) ((\<lambda>_. 0)(''A'' := 2))
   \<and> feasible (diet_lp (diet_scenario (\<lambda>_. 1) 75)) ((\<lambda>_. 0)(''A'' := 1, ''B'' := 1))
   \<and> (\<Sum>i\<leftarrow>diet_F (diet_scenario (\<lambda>_. 1) 75).
          diet_c (diet_scenario (\<lambda>_. 1) 75) i * ((\<lambda>_. 0)(''A'' := 2)) i)
       \<le> (\<Sum>i\<leftarrow>diet_F (diet_scenario (\<lambda>_. 1) 75).
          diet_c (diet_scenario (\<lambda>_. 1) 75) i * ((\<lambda>_. 0)(''A'' := 1, ''B'' := 1)) i)"
proof -
  let ?m = "diet_scenario (\<lambda>_. 1) 75"
  have opt: "optimal (diet_lp ?m) ((\<lambda>_. 0)(''A'' := 2))"
    by (simp add: diet_scenario_optimal_iff)
  have feas: "feasible (diet_lp ?m) ((\<lambda>_. 0)(''A'' := 1, ''B'' := 1))"
    by (simp add: feasible_diet_scenario feasible_diet_nutrient_scenario)
  from diet_cost_minimized [of ?m] opt
  have "\<forall>y. feasible (diet_lp ?m) y \<longrightarrow>
      (\<Sum>i\<leftarrow>diet_F ?m. diet_c ?m i * ((\<lambda>_. 0)(''A'' := 2)) i) \<le> (\<Sum>i\<leftarrow>diet_F ?m. diet_c ?m i * y i)"
    by blast
  with feas opt show ?thesis
    by blast
qed

section \<open>Parameter defaults\<close>

text \<open>The bounds of the diet data are the provided values, and the declared defaults
  where the table has a period.\<close>

lemma diet_dat_bounds_loaded:
  "list_all (\<lambda>j. load_param diet_Nmin_decl diet_dat_Nmin j = Inr (diet_Nmin diet_dat j)
                 \<and> load_param diet_Nmax_decl diet_dat_Nmax j = Inr (diet_Nmax diet_dat j))
            (diet_N diet_dat)"
  by (simp add: load_param_def diet_Nmin_decl_def diet_Nmax_decl_def diet_dat_Nmin_def diet_dat_Nmax_def
      diet_dat_def)

text \<open>
  C5: loading a parameter with no provided value and no declared default fails with
  \<open>MissingDataError\<close>; with a declared default and no provided value the result is
  exactly the default. For the declarations of the diet model, a nutrient lower bound
  that is not provided is 0.0 and a nutrient upper bound that is not provided is
  positive infinity.
\<close>

theorem load_param_default:
  "(provided k = None \<and> param_default d = None \<longrightarrow> load_param d provided k = Inl MissingDataError)
   \<and> (provided k = None \<and> param_default d = Some v \<longrightarrow> load_param d provided k = Inr v)
   \<and> (bounds j = None \<longrightarrow> load_param diet_Nmin_decl bounds j = Inr (Fin 0.0))
   \<and> (bounds j = None \<longrightarrow> load_param diet_Nmax_decl bounds j = Inr PosInf)"
  by (simp add: load_param_def diet_Nmin_decl_def diet_Nmax_decl_def)

theorem load_param_default_witness:
  "load_param diet_c_decl (Map.empty :: token \<rightharpoonup> pyfloat) ''Fries'' = Inl MissingDataError
   \<and> load_param (mf_s_decl (mf_N maxflow_dat)) (Map.empty :: unit \<rightharpoonup> token) () = Inl MissingDataError
   \<and> load_param diet_Nmax_decl diet_dat_Nmax ''Cal'' = Inr PosInf
   \<and> load_param diet_Nmin_decl diet_dat_Nmax ''Cal'' = Inr (Fin 0)
   \<and> load_param diet_Nmax_decl diet_dat_Nmax ''Carbo'' = Inr (Fin 375)"
proof -
  have none: "diet_dat_Nmax ''Cal'' = None" "param_default diet_c_decl = None"
    "param_default (mf_s_decl (mf_N maxflow_dat)) = None"
    by (simp_all add: diet_dat_Nmax_def diet_c_decl_def mf_s_decl_def)
  have given: "load_param diet_Nmax_decl diet_dat_Nmax ''Carbo'' = Inr (Fin 375)"
    by (simp add: load_param_def diet_dat_Nmax_def diet_Nmax_decl_def)
  from none
    load_param_default [of "Map.empty :: token \<rightharpoonup> pyfloat" "''Fries''" diet_c_decl undefined
      diet_dat_Nmax "''Cal''"]
    load_param_default [of "Map.empty :: unit \<rightharpoonup> token" "()" "mf_s_decl (mf_N maxflow_dat)" undefined
      diet_dat_Nmax "''Cal''"]
  have "load_param diet_c_decl (Map.empty :: token \<rightharpoonup> pyfloat) ''Fries'' = Inl MissingDataError"
    and "load_param (mf_s_decl (mf_N maxflow_dat)) (Map.empty :: unit \<rightharpoonup> token) () = Inl MissingDataError"
    and "load_param diet_Nmax_decl diet_dat_Nmax ''Cal'' = Inr PosInf"
    and "load_param diet_Nmin_decl diet_dat_Nmax ''Cal'' = Inr (Fin 0)"
    by simp_all
  with given show ?thesis
    by simp
qed

section \<open>Ill-bounded constraint instances\<close>

lemma nutrient_limit_instance:
  "j \<in> set (diet_N m) \<Longrightarrow>
   RangedExpression (diet_Nmin m j)
     (sum_expr (map (\<lambda>i. ProductExpression (diet_a m (i, j)) (VarData i)) (diet_F m)))
     (diet_Nmax m j) \<in> set (nutrient_limit m)"
proof -
  have "set (map snd (Constraint ks (nutrient_rule m)))
      = (\<lambda>j. RangedExpression (diet_Nmin m j)
           (sum_expr (map (\<lambda>i. ProductExpression (diet_a m (i, j)) (VarData i)) (diet_F m)))
           (diet_Nmax m j)) ` set ks" for ks
    by (induction ks) (simp_all add: nutrient_rule_def)
  then show "j \<in> set (diet_N m) \<Longrightarrow> ?thesis"
    unfolding nutrient_limit_def by blast
qed

lemma instantiate_ill_bounded:
  assumes "RangedExpression lo e hi \<in> set (lp_constraints p)" and "\<not> le_float lo hi"
  shows "instantiate p = Inl ModelDefinitionError"
proof -
  from assms have "\<not> list_all well_bounded (lp_constraints p)"
    unfolding list_all_iff by force
  then show ?thesis
    by (simp add: instantiate_def)
qed

lemma instantiate_diet_dat: "instantiate (diet_lp diet_dat) = Inr (diet_lp diet_dat)"
  by (simp add: instantiate_def diet_lp_def nutrient_limit_def nutrient_rule_def volume_def
      volume_rule_def diet_dat_def)

text \<open>
  C7: when a double-bounded constraint instance has a lower bound that exceeds its upper
  bound, instantiation fails with \<open>ModelDefinitionError\<close> and produces no program;
  in particular for the diet model when \<open>Nmin j\<close> exceeds \<open>Nmax j\<close> for a nutrient
  \<open>j\<close>.
\<close>

theorem instantiate_bounds_error:
  "(RangedExpression lo e hi \<in> set (lp_constraints p) \<and> \<not> le_float lo hi \<longrightarrow>
      instantiate p = Inl ModelDefinitionError \<and> (\<forall>q. instantiate p \<noteq> Inr q))
   \<and> (j \<in> set (diet_N m) \<and> \<not> le_float (diet_Nmin m j) (diet_Nmax m j) \<longrightarrow>
        instantiate (diet_lp m) = Inl ModelDefinitionError \<and> (\<forall>q. instantiate (diet_lp m) \<noteq> Inr q))"
proof (intro conjI impI)
  assume "RangedExpression lo e hi \<in> set (lp_constraints p) \<and> \<not> le_float lo hi"
  then show a: "instantiate p = Inl ModelDefinitionError"
    using instantiate_ill_bounded by blast
  then show "\<forall>q. instantiate p \<noteq> Inr q"
    by simp
next
  assume j: "j \<in> set (diet_N m) \<and> \<not> le_float (diet_Nmin m j) (diet_Nmax m j)"
  then have "RangedExpression (diet_Nmin m j)
     (sum_expr (map (\<lambda>i. ProductExpression (diet_a m (i, j)) (VarData i)) (diet_F m)))
     (diet_Nmax m j) \<in> set (lp_constraints (diet_lp m))"
    using nutrient_limit_instance [of j m] by (simp add: diet_lp_def)
  with j show b: "instantiate (diet_lp m) = Inl ModelDefinitionError"
    using instantiate_ill_bounded by blast
  then show "\<forall>q. instantiate (diet_lp m) \<noteq> Inr q"
    by simp
qed

theorem instantiate_bounds_error_witness:
  "''Cal'' \<in> set (diet_N ((diet_scenario (\<lambda>_. 1) 75)\<lparr>diet_Nmax := (\<lambda>_. Fin 500)\<rparr>))
   \<and> \<not> le_float (diet_Nmin ((diet_scenario (\<lambda>_. 1) 75)\<lparr>diet_Nmax := (\<lambda>_. Fin 500)\<rparr>) ''Cal'')
              (diet_Nmax ((diet_scenario (\<lambda>_. 1) 75)\<lparr>diet_Nmax := (\<lambda>_. Fin 500)\<rparr>) ''Cal'')
   \<and> instantiate (diet_lp ((diet_scenario (\<lambda>_. 1) 75)\<lparr>diet_Nmax := (\<lambda>_. Fin 500)\<rparr>))
       = Inl ModelDefinitionError"
proof -
  let ?m = "(diet_scenario (\<lambda>_. 1) 75)\<lparr>diet_Nmax := (\<lambda>_. Fin 500)\<rparr>"
  have h: "''Cal'' \<in> set (diet_N ?m)" "\<not> le_float (diet_Nmin ?m ''Cal'') (diet_Nmax ?m ''Cal'')"
    by (simp_all add: diet_scenario_def)
  with instantiate_bounds_error [of _ _ _ _ "''Cal''" ?m] show ?thesis
    by blast
qed

section \<open>Unsatisfiable nutrient requirements\<close>

text \<open>When the lower bound of a nutrient is positive and no food supplies the nutrient,
  the diet program has no feasible assignment.\<close>

lemma diet_no_supply_infeasible:
  assumes "j \<in> set (diet_N m)" and "\<not> le_float (diet_Nmin m j) (Fin 0)"
    and "\<forall>i\<in>set (diet_F m). diet_a m (i, j) = 0"
  shows "\<not> feasible (diet_lp m) x"
proof
  assume "feasible (diet_lp m) x"
  moreover from assms(1) have "RangedExpression (diet_Nmin m j)
     (sum_expr (map (\<lambda>i. ProductExpression (diet_a m (i, j)) (VarData i)) (diet_F m)))
     (diet_Nmax m j) \<in> set (lp_constraints (diet_lp m))"
    using nutrient_limit_instance [of j m] by (simp add: diet_lp_def)
  ultimately have "holds x (RangedExpression (diet_Nmin m j)
     (sum_expr (map (\<lambda>i. ProductExpression (diet_a m (i, j)) (VarData i)) (diet_F m)))
     (diet_Nmax m j))"
    unfolding feasible_def list_all_iff by blast
  then have le: "le_float (diet_Nmin m j) (Fin (\<Sum>i\<leftarrow>diet_F m. diet_a m (i, j) * x i))"
    by (simp add: eval_sum_expr comp_def)
  have "\<forall>i\<in>set fs. diet_a m (i, j) = 0 \<Longrightarrow> (\<Sum>i\<leftarrow>fs. diet_a m (i, j) * x i) = 0" for fs
    by (induction fs) simp_all
  from this [OF assms(3)] have "(\<Sum>i\<leftarrow>diet_F m. diet_a m (i, j) * x i) = 0" .
  with le assms(2) show False
    by simp
qed

end
